theory Spec2Isabelle
  imports Main "HOL-Library.Sublist"
begin

section \<open>AzGit: bootstrap of the identity store and the listing command\<close>

text \<open>
  A shallow embedding of \<^verbatim>\<open>cmd/azgit/main.go\<close>. The program talks to two external
  collaborators, the operating system (package \<^verbatim>\<open>os\<close>) and the INI package
  \<^verbatim>\<open>gopkg.in/ini.v1\<close>; neither is part of the repository. Both are modelled below,
  before the functions of \<^verbatim>\<open>main.go\<close> themselves, which are translated one by one.
  A Go function returning \<^verbatim>\<open>(T, error)\<close> becomes a function into \<open>error + T\<close>, one
  returning \<^verbatim>\<open>error\<close> into \<open>error option\<close>; a function that writes to the file system
  also returns the new world, and a function that may panic returns an \<open>exec\<close>.
\<close>

subsection \<open>The operating system\<close>

text \<open>
  A path is the list of its components, so that \<^verbatim>\<open>filepath.Join\<close> is list append and the
  parent directory is \<open>butlast\<close>. The world holds the result of \<^verbatim>\<open>os.UserHomeDir\<close>, the
  file system tree, and the set of paths the process is not allowed to resolve (every
  system call on such a path fails with \<open>EACCES\<close>).
\<close>

type_synonym path = "string list"

datatype node = File string | Dir

datatype os_error = ENOENT | EACCES | ENOTDIR | EISDIR

record world =
  os_home :: "string + path"
  nodes :: "path \<Rightarrow> node option"
  denied :: "path \<Rightarrow> bool"

datatype error =
    PathError os_error path
  | ParseError string
  | EmptySectionName
  | Wrap string error

datatype 'a exec = Panic string | Ret 'a

definition os_Stat :: "world \<Rightarrow> path \<Rightarrow> os_error option" where
  "os_Stat w p =
     (if denied w p then Some EACCES
      else case nodes w p of None \<Rightarrow> Some ENOENT | Some n \<Rightarrow> None)"

definition os_IsNotExist :: "os_error option \<Rightarrow> bool" where
  "os_IsNotExist err = (err = Some ENOENT)"

text \<open>
  \<^verbatim>\<open>os.MkdirAll\<close> creates the directory and every missing ancestor, from the root down.
  It stops at the first component that cannot be resolved or that is a regular file;
  the ancestors created so far stay.
\<close>

fun mkdirs :: "world \<Rightarrow> path \<Rightarrow> string list \<Rightarrow> os_error option \<times> world" where
  "mkdirs w pre [] = (None, w)"
| "mkdirs w pre (c # cs) =
     (let p = pre @ [c] in
      if denied w p then (Some EACCES, w)
      else case nodes w p of
             Some Dir \<Rightarrow> mkdirs w p cs
           | Some (File b) \<Rightarrow> (Some ENOTDIR, w)
           | None \<Rightarrow> mkdirs (w\<lparr>nodes := (nodes w)(p \<mapsto> Dir)\<rparr>) p cs)"

definition os_MkdirAll :: "world \<Rightarrow> path \<Rightarrow> error option \<times> world" where
  "os_MkdirAll w p =
     (case mkdirs w [] p of
        (None, w') \<Rightarrow> (None, w')
      | (Some e, w') \<Rightarrow> (Some (PathError e p), w'))"

definition os_ReadFile :: "world \<Rightarrow> path \<Rightarrow> error + string" where
  "os_ReadFile w p =
     (if denied w p then Inl (PathError EACCES p)
      else case nodes w p of
             None \<Rightarrow> Inl (PathError ENOENT p)
           | Some Dir \<Rightarrow> Inl (PathError EISDIR p)
           | Some (File b) \<Rightarrow> Inr b)"

definition os_WriteFile :: "world \<Rightarrow> path \<Rightarrow> string \<Rightarrow> error option \<times> world" where
  "os_WriteFile w p b =
     (if denied w p then (Some (PathError EACCES p), w)
      else case nodes w (butlast p) of
             None \<Rightarrow> (Some (PathError ENOENT p), w)
           | Some (File x) \<Rightarrow> (Some (PathError ENOTDIR p), w)
           | Some Dir \<Rightarrow>
               (case nodes w p of
                  Some Dir \<Rightarrow> (Some (PathError EISDIR p), w)
                | Some (File x) \<Rightarrow> (None, w\<lparr>nodes := (nodes w)(p \<mapsto> File b)\<rparr>)
                | None \<Rightarrow> (None, w\<lparr>nodes := (nodes w)(p \<mapsto> File b)\<rparr>)))"

subsection \<open>The INI package\<close>

text \<open>
  Modelled from the spec: the package \<^verbatim>\<open>gopkg.in/ini.v1\<close> (types \<^verbatim>\<open>ini.File\<close>,
  \<^verbatim>\<open>ini.Section\<close>, \<^verbatim>\<open>ini.Key\<close> and their methods) is missing from the sources. The spec
  describes it as an abstract interface, "load(path) -> mapping of section -> mapping of
  key -> string, save(store, path)", over a "structured key-value text format (sections
  with key = value lines)", whose sections keep their order of declaration and where an
  "absent key = empty string, never an error". A file in memory is therefore the list of
  its sections in declaration order, each with its name and its keys in order. The text
  format itself is not fixed by the spec: the parser and the printer are parameters
  \<open>parse\<close> and \<open>render\<close> of every function that loads or saves.

  A new file, \<^verbatim>\<open>ini.Empty()\<close>, has no section. \<^verbatim>\<open>NewSection\<close> and \<^verbatim>\<open>NewKey\<close> refuse an
  empty name (the one error they can return), leave an existing section in place or
  overwrite the value of an existing key, and append otherwise; \<^verbatim>\<open>Section\<close> on a name
  that is not there yields a section without keys. The keys written before the first
  header belong to a section the package names \<^verbatim>\<open>DEFAULT\<close>, the "unnamed/global section"
  of the spec.
\<close>

record ini_section =
  sec_name :: string
  sec_keys :: "(string \<times> string) list"

type_synonym ini_file = "ini_section list"

definition DefaultSection :: string where
  "DefaultSection = ''DEFAULT''"

definition ini_Empty :: ini_file where
  "ini_Empty = []"

definition ini_Load :: "(string \<Rightarrow> string + ini_file) \<Rightarrow> world \<Rightarrow> path \<Rightarrow> error + ini_file" where
  "ini_Load parse w p =
     (case os_ReadFile w p of
        Inl e \<Rightarrow> Inl e
      | Inr b \<Rightarrow> (case parse b of Inl m \<Rightarrow> Inl (ParseError m) | Inr f \<Rightarrow> Inr f))"

definition ini_SaveTo :: "(ini_file \<Rightarrow> string) \<Rightarrow> ini_file \<Rightarrow> world \<Rightarrow> path \<Rightarrow> error option \<times> world" where
  "ini_SaveTo render f w p = os_WriteFile w p (render f)"

definition ini_Sections :: "ini_file \<Rightarrow> ini_section list" where
  "ini_Sections f = f"

definition ini_Section :: "ini_file \<Rightarrow> string \<Rightarrow> ini_section" where
  "ini_Section f n =
     (case find (\<lambda>s. sec_name s = n) f of
        Some s \<Rightarrow> s
      | None \<Rightarrow> \<lparr>sec_name = n, sec_keys = []\<rparr>)"

definition Key_String :: "ini_section \<Rightarrow> string \<Rightarrow> string" where
  "Key_String s k = (case map_of (sec_keys s) k of None \<Rightarrow> [] | Some v \<Rightarrow> v)"

definition ini_NewSection :: "ini_file \<Rightarrow> string \<Rightarrow> error + ini_file" where
  "ini_NewSection f n =
     (if n = [] then Inl EmptySectionName
      else if find (\<lambda>s. sec_name s = n) f \<noteq> None then Inr f
      else Inr (f @ [\<lparr>sec_name = n, sec_keys = []\<rparr>]))"

definition set_key :: "(string \<times> string) list \<Rightarrow> string \<Rightarrow> string \<Rightarrow> (string \<times> string) list" where
  "set_key kvs k v =
     (if map_of kvs k = None then kvs @ [(k, v)]
      else map (\<lambda>(k', v'). if k' = k then (k', v) else (k', v')) kvs)"

definition NewKey :: "ini_file \<Rightarrow> string \<Rightarrow> string \<Rightarrow> string \<Rightarrow> ini_file" where
  "NewKey f n k v =
     (if k = [] then f
      else map (\<lambda>s. if sec_name s = n then s\<lparr>sec_keys := set_key (sec_keys s) k v\<rparr> else s) f)"

subsection \<open>main.go\<close>

definition azgitFolderName :: path where
  "azgitFolderName = [''.config'', ''azgit'']"

definition azgitConfigFileName :: path where
  "azgitConfigFileName = [''config.ini'']"

record GitIdentity =
  Name :: string
  Email :: string
  SigningKey :: string
  GPGSign :: string

definition userHomeDir :: "world \<Rightarrow> path exec" where
  "userHomeDir w =
     (case os_home w of
        Inl err \<Rightarrow> Panic (''Failed to get user'' @ [CHR 0x27] @ ''s home directory: '' @ err)
      | Inr home \<Rightarrow> Ret home)"

definition getAzgitConfigPath :: "world \<Rightarrow> path exec" where
  "getAzgitConfigPath w =
     (case userHomeDir w of
        Panic m \<Rightarrow> Panic m
      | Ret home \<Rightarrow> Ret (home @ azgitFolderName @ azgitConfigFileName))"

definition loadAzGitConfig :: "(string \<Rightarrow> string + ini_file) \<Rightarrow> world \<Rightarrow> (error + ini_file) exec" where
  "loadAzGitConfig parse w =
     (case getAzgitConfigPath w of
        Panic m \<Rightarrow> Panic m
      | Ret p \<Rightarrow> Ret (ini_Load parse w p))"

definition ensureAzGitFolderExists :: "world \<Rightarrow> (error option \<times> world) exec" where
  "ensureAzGitFolderExists w =
     (case userHomeDir w of
        Panic m \<Rightarrow> Panic m
      | Ret home \<Rightarrow>
          (let azgitFolderPath = home @ azgitFolderName in
           if os_IsNotExist (os_Stat w azgitFolderPath)
           then Ret (os_MkdirAll w azgitFolderPath)
           else Ret (None, w)))"

text \<open>The identity read from the loaded Git configuration, lines 67 to 72.\<close>

definition gitIdentityOf :: "ini_file \<Rightarrow> GitIdentity" where
  "gitIdentityOf gitCfg =
     \<lparr>Name = Key_String (ini_Section gitCfg ''user'') ''name'',
      Email = Key_String (ini_Section gitCfg ''user'') ''email'',
      SigningKey = Key_String (ini_Section gitCfg ''user'') ''signingkey'',
      GPGSign = Key_String (ini_Section gitCfg ''commit'') ''gpgsign''\<rparr>"

definition fetchDefaultGitIdentity ::
  "(string \<Rightarrow> string + ini_file) \<Rightarrow> world \<Rightarrow> (error + GitIdentity) exec" where
  "fetchDefaultGitIdentity parse w =
     (case userHomeDir w of
        Panic m \<Rightarrow> Panic m
      | Ret home \<Rightarrow>
          (let gitConfigPath = home @ [''.gitconfig''] in
           case ini_Load parse w gitConfigPath of
             Inl err \<Rightarrow> Ret (Inl (Wrap ''failed to read ~/.gitconfig: '' err))
           | Inr gitCfg \<Rightarrow> Ret (Inr (gitIdentityOf gitCfg))))"

text \<open>
  The keys of the new section, lines 95 to 102: \<open>name\<close> and \<open>email\<close> unconditionally,
  \<open>signingkey\<close> and \<open>gpgsign\<close> behind their tests.
\<close>

definition defaultSectionKeys :: "ini_file \<Rightarrow> GitIdentity \<Rightarrow> ini_file" where
  "defaultSectionKeys newCfg identity =
     (let c1 = NewKey newCfg ''default'' ''name'' (Name identity);
          c2 = NewKey c1 ''default'' ''email'' (Email identity);
          c3 = (if SigningKey identity \<noteq> [] then NewKey c2 ''default'' ''signingkey'' (SigningKey identity) else c2);
          c4 = (if GPGSign identity \<noteq> [] then NewKey c3 ''default'' ''gpgsign'' (GPGSign identity) else c3)
      in c4)"

definition initializeAzGitConfig ::
  "(string \<Rightarrow> string + ini_file) \<Rightarrow> (ini_file \<Rightarrow> string) \<Rightarrow> world \<Rightarrow> (error option \<times> world) exec" where
  "initializeAzGitConfig parse render w =
     (case getAzgitConfigPath w of
        Panic m \<Rightarrow> Panic m
      | Ret p \<Rightarrow>
          if \<not> os_IsNotExist (os_Stat w p) then Ret (None, w)
          else
            (case ensureAzGitFolderExists w of
               Panic m \<Rightarrow> Panic m
             | Ret (Some err, w1) \<Rightarrow>
                 Ret (Some (Wrap ''failed to ensure azgit config directory exists: '' err), w1)
             | Ret (None, w1) \<Rightarrow>
                 (case fetchDefaultGitIdentity parse w1 of
                    Panic m \<Rightarrow> Panic m
                  | Ret (Inl err) \<Rightarrow> Ret (Some err, w1)
                  | Ret (Inr identity) \<Rightarrow>
                      (case ini_NewSection ini_Empty ''default'' of
                         Inl err \<Rightarrow>
                           Ret (Some (Wrap ''failed to create default section in azgit config: '' err), w1)
                       | Inr newCfg \<Rightarrow>
                           (case getAzgitConfigPath w1 of
                              Panic m \<Rightarrow> Panic m
                            | Ret p' \<Rightarrow>
                                Ret (ini_SaveTo render (defaultSectionKeys newCfg identity) w1 p'))))))"

text \<open>
  Standard output is the string printed so far. \<^verbatim>\<open>fmt.Println\<close> appends its argument and
  a line feed.
\<close>

definition LF :: string where
  "LF = [CHR 0x0A]"

definition TAB :: string where
  "TAB = [CHR 0x09]"

definition Println :: "string \<Rightarrow> string \<Rightarrow> string" where
  "Println out s = out @ s @ LF"

definition identityInfo :: "ini_section \<Rightarrow> string" where
  "identityInfo s =
     (let name = Key_String s ''name'';
          email = Key_String s ''email'';
          signingKey = Key_String s ''signingkey'';
          gpgSign = Key_String s ''gpgsign'';
          i1 = LF @ ''Identity ['' @ sec_name s @ '']:'' @ LF;
          i2 = i1 @ TAB @ ''Name: '' @ name @ LF;
          i3 = i2 @ TAB @ ''Email: '' @ email @ LF;
          i4 = (if signingKey \<noteq> [] then i3 @ TAB @ ''Signing Key: '' @ signingKey @ LF else i3);
          i5 = (if gpgSign \<noteq> [] then i4 @ TAB @ ''GPG Sign: '' @ gpgSign @ LF else i4)
      in i5)"

text \<open>The body of the loop of \<^verbatim>\<open>listIdentities\<close>, lines 115 to 135, for one section.\<close>

definition listSection :: "string \<Rightarrow> ini_section \<Rightarrow> string" where
  "listSection out s =
     (let name = Key_String s ''name'';
          email = Key_String s ''email''
      in if name = [] \<and> email = [] then out
         else Println out (identityInfo s))"

fun listLoop :: "string \<Rightarrow> ini_section list \<Rightarrow> string" where
  "listLoop out [] = out"
| "listLoop out (s # ss) = listLoop (listSection out s) ss"

definition listIdentities ::
  "(string \<Rightarrow> string + ini_file) \<Rightarrow> world \<Rightarrow> (error option \<times> string) exec" where
  "listIdentities parse w =
     (case loadAzGitConfig parse w of
        Panic m \<Rightarrow> Panic m
      | Ret (Inl err) \<Rightarrow> Ret (Some (Wrap ''failed to read azgit config: '' err), [])
      | Ret (Inr cfg) \<Rightarrow>
          Ret (None, listLoop (Println [] ''List of Identities:'') (ini_Sections cfg)))"

text \<open>
  The two commands: the root command bootstraps and then prints the help text (a
  parameter, produced by the command-line package); \<^verbatim>\<open>list\<close> runs \<open>listIdentities\<close> and
  nothing else.
\<close>

datatype command = RootCmd | ListCmd

definition RunE ::
  "(string \<Rightarrow> string + ini_file) \<Rightarrow> (ini_file \<Rightarrow> string) \<Rightarrow> string \<Rightarrow> command \<Rightarrow> world
     \<Rightarrow> (error option \<times> string \<times> world) exec" where
  "RunE parse render help c w =
     (case c of
        RootCmd \<Rightarrow>
          (case initializeAzGitConfig parse render w of
             Panic m \<Rightarrow> Panic m
           | Ret (Some err, w') \<Rightarrow> Ret (Some err, [], w')
           | Ret (None, w') \<Rightarrow> Ret (None, help, w'))
      | ListCmd \<Rightarrow>
          (case listIdentities parse w of
             Panic m \<Rightarrow> Panic m
           | Ret (err, out) \<Rightarrow> Ret (err, out, w)))"


subsection \<open>Example inputs\<close>

text \<open>
  Concrete inputs for the examples that accompany the theorems: a home directory, the
  text of a Git configuration, a printer of the \<^verbatim>\<open>[section]\<close> / \<^verbatim>\<open>key = value\<close>
  format, a parser that knows the example texts and rejects everything else, and the
  worlds the examples run in.
\<close>

definition example_home :: path where
  "example_home = [''home'', ''alice'']"

definition example_gitconfig :: string where
  "example_gitconfig =
     ''[user]'' @ LF @ ''name = Alice'' @ LF @ ''email = alice@example.com'' @ LF"

definition example_gitcfg :: ini_file where
  "example_gitcfg =
     [\<lparr>sec_name = ''user'', sec_keys = [(''name'', ''Alice''), (''email'', ''alice@example.com'')]\<rparr>]"

definition example_store :: ini_file where
  "example_store =
     [\<lparr>sec_name = ''default'', sec_keys = [(''name'', ''Alice''), (''email'', ''alice@example.com'')]\<rparr>]"

definition example_store_text :: string where
  "example_store_text =
     ''[default]'' @ LF @ ''name = Alice'' @ LF @ ''email = alice@example.com'' @ LF"

definition example_render :: "ini_file \<Rightarrow> string" where
  "example_render f =
     concat (map (\<lambda>s. (if sec_name s = DefaultSection then [] else ''['' @ sec_name s @ '']'' @ LF)
                        @ concat (map (\<lambda>kv. fst kv @ '' = '' @ snd kv @ LF) (sec_keys s))) f)"

definition anon_gitconfig :: string where
  "anon_gitconfig = ''[core]'' @ LF @ ''editor = vi'' @ LF"

definition anon_gitcfg :: ini_file where
  "anon_gitcfg = [\<lparr>sec_name = ''core'', sec_keys = [(''editor'', ''vi'')]\<rparr>]"

definition global_store_text :: string where
  "global_store_text =
     ''name = Root'' @ LF @ ''[empty]'' @ LF @ ''[default]'' @ LF @ ''name = Bob'' @ LF
     @ ''email = bob@x.com'' @ LF @ ''signingkey = ABCD1234'' @ LF @ ''gpgsign = true'' @ LF"

definition global_store :: ini_file where
  "global_store =
     [\<lparr>sec_name = DefaultSection, sec_keys = [(''name'', ''Root'')]\<rparr>,
      \<lparr>sec_name = ''empty'', sec_keys = []\<rparr>,
      \<lparr>sec_name = ''default'',
       sec_keys = [(''name'', ''Bob''), (''email'', ''bob@x.com''), (''signingkey'', ''ABCD1234''),
                   (''gpgsign'', ''true'')]\<rparr>]"

definition blank_store_text :: string where
  "blank_store_text = ''[empty]'' @ LF @ ''signingkey = ABCD1234'' @ LF @ ''[blank]'' @ LF"

definition blank_store :: ini_file where
  "blank_store =
     [\<lparr>sec_name = ''empty'', sec_keys = [(''signingkey'', ''ABCD1234'')]\<rparr>,
      \<lparr>sec_name = ''blank'', sec_keys = []\<rparr>]"

definition example_parse :: "string \<Rightarrow> string + ini_file" where
  "example_parse b =
     (if b = example_gitconfig then Inr example_gitcfg
      else if b = example_store_text then Inr example_store
      else if b = anon_gitconfig then Inr anon_gitcfg
      else if b = global_store_text then Inr global_store
      else if b = blank_store_text then Inr blank_store
      else Inl ''unexpected input'')"

definition no_path :: "path \<Rightarrow> bool" where
  "no_path p = False"

definition fresh_world :: world where
  "fresh_world =
     \<lparr>os_home = Inr example_home,
      nodes = map_of [([], Dir), ([''home''], Dir), ([''home'', ''alice''], Dir),
                      ([''home'', ''alice'', ''.gitconfig''], File example_gitconfig)],
      denied = no_path\<rparr>"

definition bare_world :: world where
  "bare_world =
     \<lparr>os_home = Inr example_home,
      nodes = map_of [([], Dir), ([''home''], Dir), ([''home'', ''alice''], Dir)],
      denied = no_path\<rparr>"

definition stored_world :: world where
  "stored_world =
     \<lparr>os_home = Inr example_home,
      nodes = map_of [([], Dir), ([''home''], Dir), ([''home'', ''alice''], Dir),
                      ([''home'', ''alice'', ''.config''], Dir),
                      ([''home'', ''alice'', ''.config'', ''azgit''], Dir),
                      ([''home'', ''alice'', ''.config'', ''azgit'', ''config.ini''],
                       File example_store_text)],
      denied = no_path\<rparr>"

definition global_world :: world where
  "global_world =
     \<lparr>os_home = Inr example_home,
      nodes = map_of [([], Dir), ([''home''], Dir), ([''home'', ''alice''], Dir),
                      ([''home'', ''alice'', ''.config''], Dir),
                      ([''home'', ''alice'', ''.config'', ''azgit''], Dir),
                      ([''home'', ''alice'', ''.config'', ''azgit'', ''config.ini''],
                       File global_store_text)],
      denied = no_path\<rparr>"

definition blank_world :: world where
  "blank_world =
     \<lparr>os_home = Inr example_home,
      nodes = map_of [([], Dir), ([''home''], Dir), ([''home'', ''alice''], Dir),
                      ([''home'', ''alice'', ''.config''], Dir),
                      ([''home'', ''alice'', ''.config'', ''azgit''], Dir),
                      ([''home'', ''alice'', ''.config'', ''azgit'', ''config.ini''],
                       File blank_store_text)],
      denied = no_path\<rparr>"

definition anon_world :: world where
  "anon_world =
     \<lparr>os_home = Inr example_home,
      nodes = map_of [([], Dir), ([''home''], Dir), ([''home'', ''alice''], Dir),
                      ([''home'', ''alice'', ''.gitconfig''], File anon_gitconfig)],
      denied = no_path\<rparr>"

definition garbled_world :: world where
  "garbled_world =
     \<lparr>os_home = Inr example_home,
      nodes = map_of [([], Dir), ([''home''], Dir), ([''home'', ''alice''], Dir),
                      ([''home'', ''alice'', ''.gitconfig''], File ''[user'')],
      denied = no_path\<rparr>"

definition locked_path :: "path \<Rightarrow> bool" where
  "locked_path p =
     (p = [''home'', ''alice'', ''.config'', ''azgit''] \<or>
      p = [''home'', ''alice'', ''.config'', ''azgit'', ''config.ini''])"

definition locked_world :: world where
  "locked_world =
     \<lparr>os_home = Inr example_home,
      nodes = map_of [([], Dir), ([''home''], Dir), ([''home'', ''alice''], Dir),
                      ([''home'', ''alice'', ''.gitconfig''], File example_gitconfig),
                      ([''home'', ''alice'', ''.config''], Dir)],
      denied = locked_path\<rparr>"

definition readonly_path :: "path \<Rightarrow> bool" where
  "readonly_path p = (p = [''home'', ''alice'', ''.config''])"


definition readonly_bare_world :: world where
  "readonly_bare_world =
     \<lparr>os_home = Inr example_home,
      nodes = map_of [([], Dir), ([''home''], Dir), ([''home'', ''alice''], Dir)],
      denied = readonly_path\<rparr>"

section \<open>Auxiliary facts\<close>

subsection \<open>The listing loop\<close>

lemma listSection_append: "listSection out s = out @ listSection [] s"
  by (simp add: listSection_def Println_def)

lemma listLoop_concat: "listLoop out ss = out @ concat (map (listSection []) ss)"
proof (induction ss arbitrary: out)
  case Nil
  show ?case by simp
next
  case (Cons s ss)
  have "listLoop out (s # ss) = listLoop (listSection out s) ss" by simp
  also have "\<dots> = listSection out s @ concat (map (listSection []) ss)" by (rule Cons.IH)
  also have "\<dots> = out @ listSection [] s @ concat (map (listSection []) ss)"
    using listSection_append [of out s] by simp
  finally show ?case by simp
qed

lemma identityInfo_nonempty: "identityInfo s \<noteq> []"
  by (simp add: identityInfo_def LF_def Let_def)

lemma listSection_skip_iff:
  "(listSection out s = out) = (Key_String s ''name'' = [] \<and> Key_String s ''email'' = [])"
  by (simp add: listSection_def Println_def Let_def LF_def)

lemma Key_String_empty_iff:
  "(Key_String s k = []) = (map_of (sec_keys s) k = None \<or> map_of (sec_keys s) k = Some [])"
  by (simp add: Key_String_def split: option.splits)

lemma listLoop_filter:
  "concat (map (listSection []) ss) =
   concat (map (\<lambda>s. Println [] (identityInfo s))
     (filter (\<lambda>s. \<not> (Key_String s ''name'' = [] \<and> Key_String s ''email'' = [])) ss))"
  by (induction ss) (simp_all add: listSection_def Let_def)

subsection \<open>Directory creation\<close>

lemma mkdirs_env:
  "mkdirs w pre cs = (e, w') \<Longrightarrow> os_home w' = os_home w \<and> denied w' = denied w"
proof (induction cs arbitrary: w pre)
  case Nil
  then show ?case by simp
next
  case (Cons c cs)
  show ?case
  proof (cases "denied w (pre @ [c])")
    case True
    with Cons.prems show ?thesis by simp
  next
    case nd: False
    show ?thesis
    proof (cases "nodes w (pre @ [c])")
      case None
      with nd Cons.prems
      have "mkdirs (w\<lparr>nodes := (nodes w)(pre @ [c] \<mapsto> Dir)\<rparr>) (pre @ [c]) cs = (e, w')"
        by (simp add: Let_def)
      from Cons.IH [OF this] show ?thesis by simp
    next
      case (Some n)
      show ?thesis
      proof (cases n)
        case (File b)
        with Some nd Cons.prems show ?thesis by simp
      next
        case Dir
        with Some nd Cons.prems have "mkdirs w (pre @ [c]) cs = (e, w')" by (simp add: Let_def)
        from Cons.IH [OF this] show ?thesis .
      qed
    qed
  qed
qed

lemma mkdirs_nodes:
  "mkdirs w pre cs = (e, w') \<Longrightarrow>
   nodes w' q = nodes w q \<or>
   (nodes w q = None \<and> nodes w' q = Some Dir \<and> (\<exists>k. 0 < k \<and> k \<le> length cs \<and> q = pre @ take k cs))"
proof (induction cs arbitrary: w pre)
  case Nil
  then show ?case by simp
next
  case (Cons c cs)
  let ?p = "pre @ [c]"
  have shift: "\<And>k. ?p @ take k cs = pre @ take (Suc k) (c # cs)" by simp
  show ?case
  proof (cases "denied w ?p")
    case True
    with Cons.prems show ?thesis by simp
  next
    case nd: False
    show ?thesis
    proof (cases "nodes w ?p")
      case None
      let ?w2 = "w\<lparr>nodes := (nodes w)(?p \<mapsto> Dir)\<rparr>"
      from None nd Cons.prems have rec: "mkdirs ?w2 ?p cs = (e, w')" by (simp add: Let_def)
      from Cons.IH [OF rec]
      have ih: "nodes w' q = nodes ?w2 q \<or>
        (nodes ?w2 q = None \<and> nodes w' q = Some Dir \<and> (\<exists>k. 0 < k \<and> k \<le> length cs \<and> q = ?p @ take k cs))" .
      show ?thesis
      proof (cases "q = ?p")
        case True
        with ih have "nodes w' q = Some Dir" by auto
        moreover have "q = pre @ take 1 (c # cs)" using True by simp
        ultimately show ?thesis using None True
          by (metis One_nat_def Suc_leI length_Cons zero_less_Suc zero_less_one)
      next
        case False
        then have eq: "nodes ?w2 q = nodes w q" by simp
        from ih show ?thesis
        proof
          assume "nodes w' q = nodes ?w2 q"
          with eq show ?thesis by simp
        next
          assume a: "nodes ?w2 q = None \<and> nodes w' q = Some Dir \<and> (\<exists>k. 0 < k \<and> k \<le> length cs \<and> q = ?p @ take k cs)"
          then obtain k where k: "0 < k" "k \<le> length cs" "q = ?p @ take k cs" by blast
          have "0 < Suc k \<and> Suc k \<le> length (c # cs) \<and> q = pre @ take (Suc k) (c # cs)"
            using k by simp
          then have "\<exists>k. 0 < k \<and> k \<le> length (c # cs) \<and> q = pre @ take k (c # cs)" by blast
          with a eq show ?thesis by simp
        qed
      qed
    next
      case (Some n)
      show ?thesis
      proof (cases n)
        case (File b)
        with Some nd Cons.prems show ?thesis by simp
      next
        case Dir
        with Some nd Cons.prems have rec: "mkdirs w ?p cs = (e, w')" by (simp add: Let_def)
        from Cons.IH [OF rec]
        have "nodes w' q = nodes w q \<or>
          (nodes w q = None \<and> nodes w' q = Some Dir \<and> (\<exists>k. 0 < k \<and> k \<le> length cs \<and> q = ?p @ take k cs))" .
        then show ?thesis
        proof
          assume "nodes w' q = nodes w q" then show ?thesis by simp
        next
          assume a: "nodes w q = None \<and> nodes w' q = Some Dir \<and> (\<exists>k. 0 < k \<and> k \<le> length cs \<and> q = ?p @ take k cs)"
          then obtain k where k: "0 < k" "k \<le> length cs" "q = ?p @ take k cs" by blast
          have "0 < Suc k \<and> Suc k \<le> length (c # cs) \<and> q = pre @ take (Suc k) (c # cs)"
            using k by simp
          then have "\<exists>k. 0 < k \<and> k \<le> length (c # cs) \<and> q = pre @ take k (c # cs)" by blast
          with a show ?thesis by simp
        qed
      qed
    qed
  qed
qed

lemma mkdirs_keeps: "mkdirs w pre cs = (e, w') \<Longrightarrow> nodes w q = Some n \<Longrightarrow> nodes w' q = Some n"
  using mkdirs_nodes [of w pre cs e w' q] by auto

lemma mkdirs_longer:
  "mkdirs w pre cs = (e, w') \<Longrightarrow> length pre + length cs < length q \<Longrightarrow> nodes w' q = nodes w q"
  using mkdirs_nodes [of w pre cs e w' q] by auto

lemma mkdirs_ok:
  "(\<And>k. 0 < k \<Longrightarrow> k \<le> length cs \<Longrightarrow>
      \<not> denied w (pre @ take k cs) \<and> (\<forall>b. nodes w (pre @ take k cs) \<noteq> Some (File b))) \<Longrightarrow>
   \<exists>w'. mkdirs w pre cs = (None, w') \<and> (cs \<noteq> [] \<longrightarrow> nodes w' (pre @ cs) = Some Dir)"
proof (induction cs arbitrary: w pre)
  case Nil
  show ?case by simp
next
  case (Cons c cs)
  let ?p = "pre @ [c]"
  from Cons.prems [of 1] have p1: "\<not> denied w ?p" "\<And>b. nodes w ?p \<noteq> Some (File b)" by simp_all
  have later: "\<not> denied w (?p @ take k cs) \<and> (\<forall>b. nodes w (?p @ take k cs) \<noteq> Some (File b))"
    if "0 < k" "k \<le> length cs" for k
    using Cons.prems [of "Suc k"] that by simp
  show ?case
  proof (cases "nodes w ?p")
    case None
    let ?w2 = "w\<lparr>nodes := (nodes w)(?p \<mapsto> Dir)\<rparr>"
    have "\<not> denied ?w2 (?p @ take k cs) \<and> (\<forall>b. nodes ?w2 (?p @ take k cs) \<noteq> Some (File b))"
      if "0 < k" "k \<le> length cs" for k
      using later [OF that] by simp
    from Cons.IH [of ?w2 ?p, OF this]
    obtain w' where w': "mkdirs ?w2 ?p cs = (None, w')" "cs \<noteq> [] \<longrightarrow> nodes w' (?p @ cs) = Some Dir"
      by blast
    have "nodes ?w2 ?p = Some Dir" by simp
    from mkdirs_keeps [OF w'(1) this] have "nodes w' ?p = Some Dir" .
    with w' have "nodes w' (pre @ c # cs) = Some Dir" by (cases cs) simp_all
    moreover have "mkdirs w pre (c # cs) = (None, w')" using None p1(1) w'(1) by (simp add: Let_def)
    ultimately show ?thesis by simp
  next
    case (Some n)
    with p1(2) have n: "n = Dir" by (cases n) blast+
    from Cons.IH [of w ?p, OF later]
    obtain w' where w': "mkdirs w ?p cs = (None, w')" "cs \<noteq> [] \<longrightarrow> nodes w' (?p @ cs) = Some Dir"
      by blast
    from Some n have "nodes w ?p = Some Dir" by simp
    from mkdirs_keeps [OF w'(1) this] have "nodes w' ?p = Some Dir" .
    with w' have "nodes w' (pre @ c # cs) = Some Dir" by (cases cs) simp_all
    moreover have "mkdirs w pre (c # cs) = (None, w')" using Some n p1(1) w'(1) by (simp add: Let_def)
    ultimately show ?thesis by simp
  qed
qed

subsection \<open>The new store\<close>

lemma newSection_default:
  "ini_NewSection ini_Empty ''default'' = Inr [\<lparr>sec_name = ''default'', sec_keys = []\<rparr>]"
  by (simp add: ini_NewSection_def ini_Empty_def)

lemma NewKey_default:
  "k \<noteq> [] \<Longrightarrow>
   NewKey [\<lparr>sec_name = ''default'', sec_keys = kvs\<rparr>] ''default'' k v =
   [\<lparr>sec_name = ''default'', sec_keys = set_key kvs k v\<rparr>]"
  by (simp add: NewKey_def)

lemma set_key_fresh: "map_of kvs k = None \<Longrightarrow> set_key kvs k v = kvs @ [(k, v)]"
  by (simp add: set_key_def)

lemma defaultSectionKeys_eq:
  "defaultSectionKeys [\<lparr>sec_name = ''default'', sec_keys = []\<rparr>] i =
   [\<lparr>sec_name = ''default'',
     sec_keys = [(''name'', Name i), (''email'', Email i)]
       @ (if SigningKey i \<noteq> [] then [(''signingkey'', SigningKey i)] else [])
       @ (if GPGSign i \<noteq> [] then [(''gpgsign'', GPGSign i)] else [])\<rparr>]"
  by (simp add: defaultSectionKeys_def NewKey_default set_key_fresh Let_def)

subsection \<open>The steps of the bootstrap\<close>

lemma ensure_result:
  assumes home: "os_home w = Inr home"
  shows "\<exists>r w1. ensureAzGitFolderExists w = Ret (r, w1) \<and> os_home w1 = os_home w \<and>
           denied w1 = denied w \<and>
           (\<forall>q. nodes w1 q = nodes w q \<or>
                (nodes w q = None \<and> nodes w1 q = Some Dir \<and>
                 (\<exists>k. 0 < k \<and> k \<le> length (home @ azgitFolderName) \<and>
                      q = take k (home @ azgitFolderName))))"
proof (cases "os_IsNotExist (os_Stat w (home @ azgitFolderName))")
  case False
  with home have "ensureAzGitFolderExists w = Ret (None, w)"
    by (simp add: ensureAzGitFolderExists_def userHomeDir_def)
  then show ?thesis by simp
next
  case True
  obtain e w' where m: "mkdirs w [] (home @ azgitFolderName) = (e, w')"
    by (cases "mkdirs w [] (home @ azgitFolderName)") blast
  from True home m obtain r where "ensureAzGitFolderExists w = Ret (r, w')"
    by (cases e) (simp_all add: ensureAzGitFolderExists_def userHomeDir_def os_MkdirAll_def)
  moreover from mkdirs_env [OF m] have "os_home w' = os_home w" "denied w' = denied w" by simp_all
  moreover have "\<forall>q. nodes w' q = nodes w q \<or>
                (nodes w q = None \<and> nodes w' q = Some Dir \<and>
                 (\<exists>k. 0 < k \<and> k \<le> length (home @ azgitFolderName) \<and>
                      q = take k (home @ azgitFolderName)))"
    using mkdirs_nodes [OF m] by simp
  ultimately show ?thesis by blast
qed

lemma len_take: "length (home @ [g]) = length (take k (home @ [c, a])) \<Longrightarrow> k = Suc (length home)"
  by (simp split: if_splits)

lemma take_folder_gitconfig:
  "home @ [''.gitconfig''] \<noteq> take k (home @ azgitFolderName)"
proof
  assume a: "home @ [''.gitconfig''] = take k (home @ azgitFolderName)"
  have "length (home @ [''.gitconfig'']) = length (take k (home @ [''.config'', ''azgit'']))"
    unfolding a azgitFolderName_def ..
  then have k: "k = Suc (length home)" by (rule len_take)
  have "take (Suc (length home)) (home @ azgitFolderName) = home @ [''.config'']"
    by (simp add: azgitFolderName_def)
  with a k have "home @ [''.gitconfig''] = home @ [''.config'']" by (simp only:)
  then show False by simp
qed

lemma take_folder_config:
  "home @ azgitFolderName @ azgitConfigFileName \<noteq> take k (home @ azgitFolderName)"
proof
  assume a: "home @ azgitFolderName @ azgitConfigFileName = take k (home @ azgitFolderName)"
  then have "length (home @ azgitFolderName @ azgitConfigFileName) = length (take k (home @ azgitFolderName))" by simp
  then show False by (simp add: azgitFolderName_def azgitConfigFileName_def min_def split: if_splits)
qed

lemma ini_Load_cong:
  "denied w1 = denied w \<Longrightarrow> nodes w1 p = nodes w p \<Longrightarrow> ini_Load parse w1 p = ini_Load parse w p"
  by (simp add: ini_Load_def os_ReadFile_def)

lemma init_gate:
  assumes home: "os_home w = Inr home"
    and gate: "os_Stat w (home @ azgitFolderName @ azgitConfigFileName) \<noteq> Some ENOENT"
  shows "initializeAzGitConfig parse render w = Ret (None, w)"
  using home gate
  by (simp add: initializeAzGitConfig_def getAzgitConfigPath_def userHomeDir_def os_IsNotExist_def)

lemma init_run:
  assumes home: "os_home w = Inr home"
    and absent: "os_Stat w (home @ azgitFolderName @ azgitConfigFileName) = Some ENOENT"
    and ens: "ensureAzGitFolderExists w = Ret (r, w1)"
    and home1: "os_home w1 = os_home w"
  shows "initializeAzGitConfig parse render w =
     (case r of
        Some err \<Rightarrow> Ret (Some (Wrap ''failed to ensure azgit config directory exists: '' err), w1)
      | None \<Rightarrow>
         (case ini_Load parse w1 (home @ [''.gitconfig'']) of
            Inl err \<Rightarrow> Ret (Some (Wrap ''failed to read ~/.gitconfig: '' err), w1)
          | Inr gitCfg \<Rightarrow>
              Ret (ini_SaveTo render
                    (defaultSectionKeys [\<lparr>sec_name = ''default'', sec_keys = []\<rparr>]
                       (gitIdentityOf gitCfg))
                    w1 (home @ azgitFolderName @ azgitConfigFileName))))"
proof -
  from home have p: "getAzgitConfigPath w = Ret (home @ azgitFolderName @ azgitConfigFileName)"
    by (simp add: getAzgitConfigPath_def userHomeDir_def)
  from home home1 have p1: "getAzgitConfigPath w1 = Ret (home @ azgitFolderName @ azgitConfigFileName)"
    by (simp add: getAzgitConfigPath_def userHomeDir_def)
  from home home1 have f: "fetchDefaultGitIdentity parse w1 =
      (case ini_Load parse w1 (home @ [''.gitconfig'']) of
         Inl err \<Rightarrow> Ret (Inl (Wrap ''failed to read ~/.gitconfig: '' err))
       | Inr gitCfg \<Rightarrow> Ret (Inr (gitIdentityOf gitCfg)))"
    by (simp add: fetchDefaultGitIdentity_def userHomeDir_def)
  from absent have g: "os_IsNotExist (os_Stat w (home @ azgitFolderName @ azgitConfigFileName))"
    by (simp add: os_IsNotExist_def)
  show ?thesis
  proof (cases r)
    case (Some err)
    with p g ens show ?thesis by (simp add: initializeAzGitConfig_def)
  next
    case None
    show ?thesis
    proof (cases "ini_Load parse w1 (home @ [''.gitconfig''])")
      case (Inl err)
      with None p g ens f show ?thesis by (simp add: initializeAzGitConfig_def)
    next
      case (Inr gitCfg)
      with None p g ens f p1 show ?thesis
        by (simp add: initializeAzGitConfig_def newSection_default)
    qed
  qed
qed

subsection \<open>The example worlds\<close>

lemma example_paths:
  "example_home @ azgitFolderName @ azgitConfigFileName =
     [''home'', ''alice'', ''.config'', ''azgit'', ''config.ini'']"
  "example_home @ azgitFolderName = [''home'', ''alice'', ''.config'', ''azgit'']"
  "example_home @ [''.gitconfig''] = [''home'', ''alice'', ''.gitconfig'']"
  by (simp_all add: example_home_def azgitFolderName_def azgitConfigFileName_def)

lemma example_texts:
  "example_parse example_gitconfig = Inr example_gitcfg"
  "example_parse example_store_text = Inr example_store"
  "example_parse anon_gitconfig = Inr anon_gitcfg"
  "example_parse global_store_text = Inr global_store"
  "example_parse blank_store_text = Inr blank_store"
  "example_parse ''[user'' = Inl ''unexpected input''"
  by (simp_all add: example_parse_def example_gitconfig_def example_store_text_def
      anon_gitconfig_def global_store_text_def blank_store_text_def LF_def)

lemma load_stored: "loadAzGitConfig example_parse stored_world = Ret (Inr example_store)"
proof -
  have "os_ReadFile stored_world [''home'', ''alice'', ''.config'', ''azgit'', ''config.ini'']
          = Inr example_store_text"
    by (simp add: os_ReadFile_def stored_world_def no_path_def)
  moreover have "getAzgitConfigPath stored_world =
      Ret [''home'', ''alice'', ''.config'', ''azgit'', ''config.ini'']"
    by (simp add: getAzgitConfigPath_def userHomeDir_def stored_world_def example_paths)
  ultimately show ?thesis
    by (simp add: loadAzGitConfig_def ini_Load_def example_texts)
qed

lemma load_global: "loadAzGitConfig example_parse global_world = Ret (Inr global_store)"
proof -
  have "os_ReadFile global_world [''home'', ''alice'', ''.config'', ''azgit'', ''config.ini'']
          = Inr global_store_text"
    by (simp add: os_ReadFile_def global_world_def no_path_def)
  moreover have "getAzgitConfigPath global_world =
      Ret [''home'', ''alice'', ''.config'', ''azgit'', ''config.ini'']"
    by (simp add: getAzgitConfigPath_def userHomeDir_def global_world_def example_paths)
  ultimately show ?thesis
    by (simp add: loadAzGitConfig_def ini_Load_def example_texts)
qed

lemma load_blank: "loadAzGitConfig example_parse blank_world = Ret (Inr blank_store)"
proof -
  have "os_ReadFile blank_world [''home'', ''alice'', ''.config'', ''azgit'', ''config.ini'']
          = Inr blank_store_text"
    by (simp add: os_ReadFile_def blank_world_def no_path_def)
  moreover have "getAzgitConfigPath blank_world =
      Ret [''home'', ''alice'', ''.config'', ''azgit'', ''config.ini'']"
    by (simp add: getAzgitConfigPath_def userHomeDir_def blank_world_def example_paths)
  ultimately show ?thesis
    by (simp add: loadAzGitConfig_def ini_Load_def example_texts)
qed

lemma load_fresh:
  "loadAzGitConfig example_parse fresh_world =
     Ret (Inl (PathError ENOENT [''home'', ''alice'', ''.config'', ''azgit'', ''config.ini'']))"
proof -
  have "os_ReadFile fresh_world [''home'', ''alice'', ''.config'', ''azgit'', ''config.ini'']
          = Inl (PathError ENOENT [''home'', ''alice'', ''.config'', ''azgit'', ''config.ini''])"
    by (simp add: os_ReadFile_def fresh_world_def no_path_def)
  moreover have "getAzgitConfigPath fresh_world =
      Ret [''home'', ''alice'', ''.config'', ''azgit'', ''config.ini'']"
    by (simp add: getAzgitConfigPath_def userHomeDir_def fresh_world_def example_paths)
  ultimately show ?thesis
    by (simp add: loadAzGitConfig_def ini_Load_def)
qed

subsection \<open>The output of the listing\<close>

lemma listIdentities_output:
  assumes "loadAzGitConfig parse w = Ret (Inr cfg)"
  shows "listIdentities parse w =
           Ret (None, ''List of Identities:'' @ LF @ concat (map (listSection []) cfg))"
  using assms listLoop_concat [of "Println [] ''List of Identities:''" cfg]
  by (simp add: listIdentities_def ini_Sections_def Println_def)

lemma listSection_block:
  "listSection [] s =
     (if Key_String s ''name'' = [] \<and> Key_String s ''email'' = [] then []
      else LF @ ''Identity ['' @ sec_name s @ '']:'' @ LF
           @ TAB @ ''Name: '' @ Key_String s ''name'' @ LF
           @ TAB @ ''Email: '' @ Key_String s ''email'' @ LF
           @ (if Key_String s ''signingkey'' = [] then []
              else TAB @ ''Signing Key: '' @ Key_String s ''signingkey'' @ LF)
           @ (if Key_String s ''gpgsign'' = [] then []
              else TAB @ ''GPG Sign: '' @ Key_String s ''gpgsign'' @ LF)
           @ LF)"
  by (simp add: listSection_def identityInfo_def Println_def Let_def)

lemma concat_map_filter_if:
  "concat (map (\<lambda>s. if P s then [] else f s) xs) = concat (map f (filter (\<lambda>s. \<not> P s) xs))"
  by (induction xs) simp_all

lemma global_blocks:
  "map (listSection []) global_store =
     [LF @ ''Identity [DEFAULT]:'' @ LF @ TAB @ ''Name: Root'' @ LF @ TAB @ ''Email: '' @ LF @ LF,
      [],
      LF @ ''Identity [default]:'' @ LF @ TAB @ ''Name: Bob'' @ LF @ TAB @ ''Email: bob@x.com'' @ LF
        @ TAB @ ''Signing Key: ABCD1234'' @ LF @ TAB @ ''GPG Sign: true'' @ LF @ LF]"
  by (simp add: global_store_def listSection_block Key_String_def DefaultSection_def)

subsection \<open>Facts about the bootstrap and its example worlds\<close>

lemma stat_absent:
  "os_Stat w p = Some ENOENT \<Longrightarrow> \<not> denied w p \<and> nodes w p = None"
  by (simp add: os_Stat_def split: if_splits option.splits)

lemma ensure_frame:
  assumes home: "os_home w = Inr home"
    and ens: "ensureAzGitFolderExists w = Ret (r, w1)"
  shows "os_home w1 = os_home w" "denied w1 = denied w"
    "nodes w1 (home @ azgitFolderName @ azgitConfigFileName) =
       nodes w (home @ azgitFolderName @ azgitConfigFileName)"
    "nodes w1 (home @ [''.gitconfig'']) = nodes w (home @ [''.gitconfig''])"
proof -
  from ensure_result [OF home] ens
  have a: "os_home w1 = os_home w" "denied w1 = denied w"
    and b: "\<And>q. nodes w1 q = nodes w q \<or>
                (nodes w q = None \<and> nodes w1 q = Some Dir \<and>
                 (\<exists>k. 0 < k \<and> k \<le> length (home @ azgitFolderName) \<and>
                      q = take k (home @ azgitFolderName)))"
    by auto
  show "os_home w1 = os_home w" "denied w1 = denied w" by (rule a)+
  show "nodes w1 (home @ azgitFolderName @ azgitConfigFileName) =
       nodes w (home @ azgitFolderName @ azgitConfigFileName)"
    using b [of "home @ azgitFolderName @ azgitConfigFileName"] take_folder_config [of home]
    by blast
  show "nodes w1 (home @ [''.gitconfig'']) = nodes w (home @ [''.gitconfig''])"
    using b [of "home @ [''.gitconfig'']"] take_folder_gitconfig [of home]
    by blast
qed

lemma ensure_free:
  assumes home: "os_home w = Inr home"
    and free: "\<forall>q\<in>set (prefixes (home @ azgitFolderName)).
                 \<not> denied w q \<and> (\<forall>b. nodes w q \<noteq> Some (File b))"
  shows "\<exists>w1. ensureAzGitFolderExists w = Ret (None, w1) \<and>
              nodes w1 (home @ azgitFolderName) = Some Dir"
proof (cases "os_IsNotExist (os_Stat w (home @ azgitFolderName))")
  case False
  have "home @ azgitFolderName \<in> set (prefixes (home @ azgitFolderName))"
    by (simp add: in_set_prefixes)
  with free have nf: "\<not> denied w (home @ azgitFolderName)"
    "\<And>b. nodes w (home @ azgitFolderName) \<noteq> Some (File b)" by blast+
  from False nf(1) obtain n where n: "nodes w (home @ azgitFolderName) = Some n"
    by (auto simp: os_IsNotExist_def os_Stat_def split: option.splits)
  with nf(2) have "n = Dir" by (cases n) blast+
  with n have "nodes w (home @ azgitFolderName) = Some Dir" by simp
  moreover from False home have "ensureAzGitFolderExists w = Ret (None, w)"
    by (simp add: ensureAzGitFolderExists_def userHomeDir_def)
  ultimately show ?thesis by blast
next
  case True
  have "\<not> denied w ([] @ take k (home @ azgitFolderName)) \<and>
        (\<forall>b. nodes w ([] @ take k (home @ azgitFolderName)) \<noteq> Some (File b))" for k
  proof -
    have "take k (home @ azgitFolderName) \<in> set (prefixes (home @ azgitFolderName))"
      unfolding in_set_prefixes by (rule take_is_prefix)
    with free show ?thesis by simp
  qed
  from mkdirs_ok [of "home @ azgitFolderName" w "[]", OF this]
  obtain w' where w': "mkdirs w [] (home @ azgitFolderName) = (None, w')"
    "home @ azgitFolderName \<noteq> [] \<longrightarrow> nodes w' ([] @ home @ azgitFolderName) = Some Dir"
    by blast
  have "home @ azgitFolderName \<noteq> []" by (simp add: azgitFolderName_def)
  with w'(2) have "nodes w' (home @ azgitFolderName) = Some Dir" by simp
  moreover from True home w'(1) have "ensureAzGitFolderExists w = Ret (None, w')"
    by (simp add: ensureAzGitFolderExists_def userHomeDir_def os_MkdirAll_def)
  ultimately show ?thesis by blast
qed

lemma butlast_config_path:
  "butlast (home @ azgitFolderName @ azgitConfigFileName) = home @ azgitFolderName"
  by (simp add: azgitFolderName_def azgitConfigFileName_def butlast_append)

lemma save_new:
  assumes "\<not> denied w1 (home @ azgitFolderName @ azgitConfigFileName)"
    and "nodes w1 (home @ azgitFolderName) = Some Dir"
    and "nodes w1 (home @ azgitFolderName @ azgitConfigFileName) = None"
  shows "ini_SaveTo render f w1 (home @ azgitFolderName @ azgitConfigFileName) =
          (None, w1\<lparr>nodes := (nodes w1)(home @ azgitFolderName @ azgitConfigFileName \<mapsto> File (render f))\<rparr>)"
  using assms by (simp add: ini_SaveTo_def os_WriteFile_def butlast_config_path)

lemma init_fresh:
  assumes home: "os_home w = Inr home"
    and absent: "os_Stat w (home @ azgitFolderName @ azgitConfigFileName) = Some ENOENT"
    and git: "ini_Load parse w (home @ [''.gitconfig'']) = Inr gitCfg"
    and free: "\<forall>q\<in>set (prefixes (home @ azgitFolderName)).
                 \<not> denied w q \<and> (\<forall>b. nodes w q \<noteq> Some (File b))"
  shows "\<exists>w1. ensureAzGitFolderExists w = Ret (None, w1) \<and>
           initializeAzGitConfig parse render w =
             Ret (None, w1\<lparr>nodes := (nodes w1)(home @ azgitFolderName @ azgitConfigFileName \<mapsto>
                    File (render (defaultSectionKeys [\<lparr>sec_name = ''default'', sec_keys = []\<rparr>]
                                    (gitIdentityOf gitCfg))))\<rparr>)"
proof -
  from ensure_free [OF home free] obtain w1 where
    ens: "ensureAzGitFolderExists w = Ret (None, w1)"
    and dir: "nodes w1 (home @ azgitFolderName) = Some Dir" by blast
  note fr = ensure_frame [OF home ens]
  from stat_absent [OF absent] fr have
    nd: "\<not> denied w1 (home @ azgitFolderName @ azgitConfigFileName)"
    and nn: "nodes w1 (home @ azgitFolderName @ azgitConfigFileName) = None" by simp_all
  from fr git have git1: "ini_Load parse w1 (home @ [''.gitconfig'']) = Inr gitCfg"
    using ini_Load_cong [of w1 w "home @ [''.gitconfig'']" parse] by simp
  from init_run [OF home absent ens fr(1), of parse render] git1
  have "initializeAzGitConfig parse render w =
      Ret (ini_SaveTo render
             (defaultSectionKeys [\<lparr>sec_name = ''default'', sec_keys = []\<rparr>] (gitIdentityOf gitCfg))
             w1 (home @ azgitFolderName @ azgitConfigFileName))"
    by simp
  with save_new [OF nd dir nn] ens show ?thesis by simp
qed

lemma write_ok:
  "os_WriteFile w p b = (None, w1) \<Longrightarrow>
     \<not> denied w p \<and> w1 = w\<lparr>nodes := (nodes w)(p \<mapsto> File b)\<rparr>"
  by (auto simp add: os_WriteFile_def split: if_splits option.splits node.splits)

lemma init_again:
  assumes home: "os_home w = Inr home"
    and first: "initializeAzGitConfig parse render w = Ret (None, w1)"
  shows "initializeAzGitConfig parse render w1 = Ret (None, w1)"
proof (cases "os_Stat w (home @ azgitFolderName @ azgitConfigFileName) = Some ENOENT")
  case False
  from init_gate [OF home False, of parse render] first have "w1 = w" by simp
  with init_gate [OF home False, of parse render] show ?thesis by simp
next
  case True
  from ensure_result [OF home] obtain r w0 where
    ens: "ensureAzGitFolderExists w = Ret (r, w0)" by blast
  note fr = ensure_frame [OF home ens]
  note run = init_run [OF home True ens fr(1), of parse render]
  from run first have r: "r = None" by (cases r) simp_all
  from run first r obtain gitCfg where
    "ini_Load parse w0 (home @ [''.gitconfig'']) = Inr gitCfg"
    by (cases "ini_Load parse w0 (home @ [''.gitconfig''])") simp_all
  with run first r obtain f where
    "ini_SaveTo render f w0 (home @ azgitFolderName @ azgitConfigFileName) = (None, w1)"
    by simp
  from write_ok [OF this [unfolded ini_SaveTo_def]]
  have nd: "\<not> denied w0 (home @ azgitFolderName @ azgitConfigFileName)"
    and w1: "w1 = w0\<lparr>nodes := (nodes w0)(home @ azgitFolderName @ azgitConfigFileName \<mapsto> File (render f))\<rparr>"
    by simp_all
  from w1 fr(1) home have home1: "os_home w1 = Inr home" by simp
  from w1 nd have "os_Stat w1 (home @ azgitFolderName @ azgitConfigFileName) = None"
    by (simp add: os_Stat_def)
  then have "os_Stat w1 (home @ azgitFolderName @ azgitConfigFileName) \<noteq> Some ENOENT" by simp
  from init_gate [OF home1 this] show ?thesis .
qed

lemma init_failure_leaves_no_store:
  assumes home: "os_home w = Inr home"
    and fail: "initializeAzGitConfig parse render w = Ret (Some (Wrap m e0), w')"
  shows "nodes w (home @ azgitFolderName @ azgitConfigFileName) = None \<and>
         nodes w' (home @ azgitFolderName @ azgitConfigFileName) = None"
proof (cases "os_Stat w (home @ azgitFolderName @ azgitConfigFileName) = Some ENOENT")
  case False
  from init_gate [OF home False, of parse render] fail show ?thesis by simp
next
  case True
  from ensure_result [OF home] obtain r w0 where
    ens: "ensureAzGitFolderExists w = Ret (r, w0)" by blast
  note fr = ensure_frame [OF home ens]
  note run = init_run [OF home True ens fr(1), of parse render]
  from stat_absent [OF True] have none: "nodes w (home @ azgitFolderName @ azgitConfigFileName) = None"
    by simp
  have "w' = w0"
  proof (cases r)
    case (Some err)
    with run fail show ?thesis by simp
  next
    case None
    show ?thesis
    proof (cases "ini_Load parse w0 (home @ [''.gitconfig''])")
      case (Inl err)
      with None run fail show ?thesis by simp
    next
      case (Inr gitCfg)
      with None run fail have
        "os_WriteFile w0 (home @ azgitFolderName @ azgitConfigFileName)
           (render (defaultSectionKeys [\<lparr>sec_name = ''default'', sec_keys = []\<rparr>] (gitIdentityOf gitCfg)))
         = (Some (Wrap m e0), w')"
        by (simp add: ini_SaveTo_def)
      then show ?thesis
        by (auto simp add: os_WriteFile_def split: if_splits option.splits node.splits)
    qed
  qed
  with fr(3) none show ?thesis by simp
qed

lemma free_example:
  assumes "denied w = no_path"
    and "nodes w [] = Some Dir" "nodes w [''home''] = Some Dir"
    and "nodes w [''home'', ''alice''] = Some Dir"
    and "nodes w [''home'', ''alice'', ''.config''] = None \<or> nodes w [''home'', ''alice'', ''.config''] = Some Dir"
    and "nodes w [''home'', ''alice'', ''.config'', ''azgit''] = None
         \<or> nodes w [''home'', ''alice'', ''.config'', ''azgit''] = Some Dir"
  shows "\<forall>q\<in>set (prefixes (example_home @ azgitFolderName)).
           \<not> denied w q \<and> (\<forall>b. nodes w q \<noteq> Some (File b))"
  using assms by (auto simp add: example_paths no_path_def)

lemma fresh_facts:
  "os_home fresh_world = Inr example_home"
  "os_Stat fresh_world (example_home @ azgitFolderName @ azgitConfigFileName) = Some ENOENT"
  "ini_Load example_parse fresh_world (example_home @ [''.gitconfig'']) = Inr example_gitcfg"
  "\<forall>q\<in>set (prefixes (example_home @ azgitFolderName)).
     \<not> denied fresh_world q \<and> (\<forall>b. nodes fresh_world q \<noteq> Some (File b))"
proof -
  show "os_home fresh_world = Inr example_home" by (simp add: fresh_world_def)
  show "os_Stat fresh_world (example_home @ azgitFolderName @ azgitConfigFileName) = Some ENOENT"
    by (simp add: example_paths os_Stat_def fresh_world_def no_path_def)
  have "os_ReadFile fresh_world [''home'', ''alice'', ''.gitconfig''] = Inr example_gitconfig"
    by (simp add: os_ReadFile_def fresh_world_def no_path_def)
  then show "ini_Load example_parse fresh_world (example_home @ [''.gitconfig'']) = Inr example_gitcfg"
    by (simp add: ini_Load_def example_paths example_texts)
  show "\<forall>q\<in>set (prefixes (example_home @ azgitFolderName)).
     \<not> denied fresh_world q \<and> (\<forall>b. nodes fresh_world q \<noteq> Some (File b))"
    by (rule free_example) (simp_all add: fresh_world_def)
qed

lemma anon_facts:
  "os_home anon_world = Inr example_home"
  "os_Stat anon_world (example_home @ azgitFolderName @ azgitConfigFileName) = Some ENOENT"
  "ini_Load example_parse anon_world (example_home @ [''.gitconfig'']) = Inr anon_gitcfg"
  "\<forall>q\<in>set (prefixes (example_home @ azgitFolderName)).
     \<not> denied anon_world q \<and> (\<forall>b. nodes anon_world q \<noteq> Some (File b))"
proof -
  show "os_home anon_world = Inr example_home" by (simp add: anon_world_def)
  show "os_Stat anon_world (example_home @ azgitFolderName @ azgitConfigFileName) = Some ENOENT"
    by (simp add: example_paths os_Stat_def anon_world_def no_path_def)
  have "os_ReadFile anon_world [''home'', ''alice'', ''.gitconfig''] = Inr anon_gitconfig"
    by (simp add: os_ReadFile_def anon_world_def no_path_def)
  then show "ini_Load example_parse anon_world (example_home @ [''.gitconfig'']) = Inr anon_gitcfg"
    by (simp add: ini_Load_def example_paths example_texts)
  show "\<forall>q\<in>set (prefixes (example_home @ azgitFolderName)).
     \<not> denied anon_world q \<and> (\<forall>b. nodes anon_world q \<noteq> Some (File b))"
    by (rule free_example) (simp_all add: anon_world_def)
qed


lemma anon_identity:
  "gitIdentityOf anon_gitcfg = \<lparr>Name = [], Email = [], SigningKey = [], GPGSign = []\<rparr>"
  by (simp add: gitIdentityOf_def Key_String_def ini_Section_def anon_gitcfg_def)

lemma stored_facts:
  "os_home stored_world = Inr example_home"
  "os_Stat stored_world (example_home @ azgitFolderName @ azgitConfigFileName) = None"
  by (simp_all add: stored_world_def example_paths os_Stat_def no_path_def)

lemma bare_facts:
  "os_home bare_world = Inr example_home"
  "os_Stat bare_world (example_home @ azgitFolderName @ azgitConfigFileName) = Some ENOENT"
  "ini_Load example_parse bare_world (example_home @ [''.gitconfig'']) =
     Inl (PathError ENOENT [''home'', ''alice'', ''.gitconfig''])"
  "\<forall>q\<in>set (prefixes (example_home @ azgitFolderName)).
     \<not> denied bare_world q \<and> (\<forall>b. nodes bare_world q \<noteq> Some (File b))"
proof -
  show "os_home bare_world = Inr example_home" by (simp add: bare_world_def)
  show "os_Stat bare_world (example_home @ azgitFolderName @ azgitConfigFileName) = Some ENOENT"
    by (simp add: example_paths os_Stat_def bare_world_def no_path_def)
  have "os_ReadFile bare_world [''home'', ''alice'', ''.gitconfig''] =
          Inl (PathError ENOENT [''home'', ''alice'', ''.gitconfig''])"
    by (simp add: os_ReadFile_def bare_world_def no_path_def)
  then show "ini_Load example_parse bare_world (example_home @ [''.gitconfig'']) =
     Inl (PathError ENOENT [''home'', ''alice'', ''.gitconfig''])"
    by (simp add: ini_Load_def example_paths)
  show "\<forall>q\<in>set (prefixes (example_home @ azgitFolderName)).
     \<not> denied bare_world q \<and> (\<forall>b. nodes bare_world q \<noteq> Some (File b))"
    by (rule free_example) (simp_all add: bare_world_def)
qed

lemma garbled_facts:
  "os_home garbled_world = Inr example_home"
  "os_Stat garbled_world (example_home @ azgitFolderName @ azgitConfigFileName) = Some ENOENT"
  "ini_Load example_parse garbled_world (example_home @ [''.gitconfig'']) =
     Inl (ParseError ''unexpected input'')"
  "\<forall>q\<in>set (prefixes (example_home @ azgitFolderName)).
     \<not> denied garbled_world q \<and> (\<forall>b. nodes garbled_world q \<noteq> Some (File b))"
proof -
  show "os_home garbled_world = Inr example_home" by (simp add: garbled_world_def)
  show "os_Stat garbled_world (example_home @ azgitFolderName @ azgitConfigFileName) = Some ENOENT"
    by (simp add: example_paths os_Stat_def garbled_world_def no_path_def)
  have "os_ReadFile garbled_world [''home'', ''alice'', ''.gitconfig''] = Inr ''[user''"
    by (simp add: os_ReadFile_def garbled_world_def no_path_def)
  then show "ini_Load example_parse garbled_world (example_home @ [''.gitconfig'']) =
     Inl (ParseError ''unexpected input'')"
    by (simp add: ini_Load_def example_paths example_texts)
  show "\<forall>q\<in>set (prefixes (example_home @ azgitFolderName)).
     \<not> denied garbled_world q \<and> (\<forall>b. nodes garbled_world q \<noteq> Some (File b))"
    by (rule free_example) (simp_all add: garbled_world_def)
qed

lemma locked_facts:
  "os_home locked_world = Inr example_home"
  "os_Stat locked_world (example_home @ azgitFolderName @ azgitConfigFileName) = Some EACCES"
  "os_Stat locked_world (example_home @ azgitFolderName) = Some EACCES"
  "nodes locked_world [''home'', ''alice'', ''.config'', ''azgit'', ''config.ini''] = None"
  "nodes locked_world [''home'', ''alice'', ''.config'', ''azgit''] = None"
  by (simp_all add: locked_world_def example_paths os_Stat_def locked_path_def)

lemma readonly_mkdir:
  "nodes w [''home''] = Some Dir \<Longrightarrow> nodes w [''home'', ''alice''] = Some Dir \<Longrightarrow>
   denied w = readonly_path \<Longrightarrow> os_home w = Inr example_home \<Longrightarrow>
   nodes w [''home'', ''alice'', ''.config'', ''azgit''] = None \<Longrightarrow>
   ensureAzGitFolderExists w =
     Ret (Some (PathError EACCES [''home'', ''alice'', ''.config'', ''azgit'']), w)"
  by (simp add: ensureAzGitFolderExists_def userHomeDir_def example_paths os_IsNotExist_def
      os_Stat_def readonly_path_def os_MkdirAll_def Let_def)

lemma readonly_init:
  "nodes w [''home''] = Some Dir \<Longrightarrow> nodes w [''home'', ''alice''] = Some Dir \<Longrightarrow>
   denied w = readonly_path \<Longrightarrow> os_home w = Inr example_home \<Longrightarrow>
   nodes w [''home'', ''alice'', ''.config'', ''azgit''] = None \<Longrightarrow>
   nodes w [''home'', ''alice'', ''.config'', ''azgit'', ''config.ini''] = None \<Longrightarrow>
   initializeAzGitConfig parse render w =
     Ret (Some (Wrap ''failed to ensure azgit config directory exists: ''
                  (PathError EACCES [''home'', ''alice'', ''.config'', ''azgit''])), w)"
  using readonly_mkdir [of w]
  by (simp add: initializeAzGitConfig_def getAzgitConfigPath_def userHomeDir_def example_paths
      os_IsNotExist_def os_Stat_def readonly_path_def)

lemma load_at_home:
  "os_home w = Inr home \<Longrightarrow>
   loadAzGitConfig parse w = Ret (ini_Load parse w (home @ azgitFolderName @ azgitConfigFileName))"
  by (simp add: loadAzGitConfig_def getAzgitConfigPath_def userHomeDir_def)

section \<open>The bootstrap\<close>




text \<open>
  Claim C3. Under the conditions of the successful bootstrap, the section \<open>default\<close> of
  the store that is saved has the key \<open>name\<close> with the derived name and the key
  \<open>email\<close> with the derived email, whether or not these are empty. It has the key
  \<open>signingkey\<close> only if the derived signing key is not empty and the key \<open>gpgsign\<close> only
  if the derived value is not empty; otherwise the key is absent from the section, not
  present with an empty value.
\<close>

theorem bootstrap_optional_keys_omitted:
  assumes home: "os_home w = Inr home"
    and absent: "os_Stat w (home @ azgitFolderName @ azgitConfigFileName) = Some ENOENT"
    and git: "ini_Load parse w (home @ [''.gitconfig'']) = Inr gitCfg"
    and free: "\<forall>q\<in>set (prefixes (home @ azgitFolderName)).
                 \<not> denied w q \<and> (\<forall>b. nodes w q \<noteq> Some (File b))"
  shows "\<exists>w' kvs. initializeAzGitConfig parse render w = Ret (None, w')
          \<and> nodes w' (home @ azgitFolderName @ azgitConfigFileName) =
              Some (File (render [\<lparr>sec_name = ''default'', sec_keys = kvs\<rparr>]))
          \<and> kvs = [(''name'', Name (gitIdentityOf gitCfg)), (''email'', Email (gitIdentityOf gitCfg))]
                  @ (if SigningKey (gitIdentityOf gitCfg) = [] then []
                     else [(''signingkey'', SigningKey (gitIdentityOf gitCfg))])
                  @ (if GPGSign (gitIdentityOf gitCfg) = [] then []
                     else [(''gpgsign'', GPGSign (gitIdentityOf gitCfg))])
          \<and> map_of kvs ''name'' = Some (Name (gitIdentityOf gitCfg))
          \<and> map_of kvs ''email'' = Some (Email (gitIdentityOf gitCfg))
          \<and> map_of kvs ''signingkey'' =
               (if SigningKey (gitIdentityOf gitCfg) = [] then None
                else Some (SigningKey (gitIdentityOf gitCfg)))
          \<and> map_of kvs ''gpgsign'' =
               (if GPGSign (gitIdentityOf gitCfg) = [] then None
                else Some (GPGSign (gitIdentityOf gitCfg)))"
proof -
  from init_fresh [OF home absent git free, of render] obtain w1 where
    "initializeAzGitConfig parse render w =
       Ret (None, w1\<lparr>nodes := (nodes w1)(home @ azgitFolderName @ azgitConfigFileName \<mapsto>
              File (render (defaultSectionKeys [\<lparr>sec_name = ''default'', sec_keys = []\<rparr>]
                              (gitIdentityOf gitCfg))))\<rparr>)"
    by blast
  then show ?thesis
    by (simp add: defaultSectionKeys_eq)
qed

theorem bootstrap_optional_keys_omitted_witness:
  "\<exists>w'. initializeAzGitConfig example_parse example_render anon_world = Ret (None, w')
     \<and> nodes w' [''home'', ''alice'', ''.config'', ''azgit'', ''config.ini''] =
         Some (File (example_render
                       [\<lparr>sec_name = ''default'', sec_keys = [(''name'', []), (''email'', [])]\<rparr>]))"
  using bootstrap_optional_keys_omitted [OF anon_facts, of example_render]
  by (simp add: anon_identity example_paths)

text \<open>
  Claim C4. If the store file exists, \<open>initializeAzGitConfig\<close> returns success and the
  world it returns is the world it was given: nothing is created, nothing is written.
  More generally, after any successful bootstrap a second bootstrap returns success and
  changes nothing, so the store file holds the same bytes after the second call.
\<close>

theorem bootstrap_idempotent:
  assumes home: "os_home w = Inr home"
  shows "(os_Stat w (home @ azgitFolderName @ azgitConfigFileName) = None \<longrightarrow>
            initializeAzGitConfig parse render w = Ret (None, w))
         \<and> (initializeAzGitConfig parse render w = Ret (None, w1) \<longrightarrow>
            initializeAzGitConfig parse render w1 = Ret (None, w1))"
proof -
  have "initializeAzGitConfig parse render w = Ret (None, w)"
    if "os_Stat w (home @ azgitFolderName @ azgitConfigFileName) = None"
  proof -
    from that have "os_Stat w (home @ azgitFolderName @ azgitConfigFileName) \<noteq> Some ENOENT" by simp
    from init_gate [OF home this] show ?thesis .
  qed
  moreover have "initializeAzGitConfig parse render w1 = Ret (None, w1)"
    if "initializeAzGitConfig parse render w = Ret (None, w1)"
    using init_again [OF home that] .
  ultimately show ?thesis by blast
qed

theorem bootstrap_idempotent_witness:
  "initializeAzGitConfig example_parse example_render stored_world = Ret (None, stored_world)
   \<and> (\<exists>w1. initializeAzGitConfig example_parse example_render fresh_world = Ret (None, w1)
          \<and> initializeAzGitConfig example_parse example_render w1 = Ret (None, w1))"
proof -
  from init_fresh [OF fresh_facts, of example_render] obtain w1 where
    first: "initializeAzGitConfig example_parse example_render fresh_world = Ret (None, w1)"
    by blast
  from bootstrap_idempotent [OF fresh_facts(1), of example_parse example_render w1] first
  have "initializeAzGitConfig example_parse example_render w1 = Ret (None, w1)" by blast
  with first have "\<exists>w1. initializeAzGitConfig example_parse example_render fresh_world = Ret (None, w1)
          \<and> initializeAzGitConfig example_parse example_render w1 = Ret (None, w1)" by blast
  moreover from bootstrap_idempotent [OF stored_facts(1), of example_parse example_render stored_world]
    stored_facts(2)
  have "initializeAzGitConfig example_parse example_render stored_world = Ret (None, stored_world)"
    by blast
  ultimately show ?thesis by blast
qed

text \<open>
  Claim C5, as amended. Let the existence check report that the store file does not
  exist and let the directory step succeed. If loading \<^verbatim>\<open><home>/.gitconfig\<close> then fails
  (the file is missing, cannot be read, or is malformed), the bootstrap returns that
  failure wrapped under \<^verbatim>\<open>failed to read ~/.gitconfig\<close>, and no store file exists
  afterwards. Every failure of the bootstrap before the final write (these are the
  wrapped errors; the error of the write is returned bare) leaves no store file behind.
\<close>

theorem bootstrap_fails_without_gitconfig:
  assumes home: "os_home w = Inr home"
  shows "(os_Stat w (home @ azgitFolderName @ azgitConfigFileName) = Some ENOENT
          \<and> ensureAzGitFolderExists w = Ret (None, w1)
          \<and> ini_Load parse w (home @ [''.gitconfig'']) = Inl e
          \<longrightarrow> initializeAzGitConfig parse render w =
                 Ret (Some (Wrap ''failed to read ~/.gitconfig: '' e), w1)
              \<and> nodes w1 (home @ azgitFolderName @ azgitConfigFileName) = None)
         \<and> (initializeAzGitConfig parse render w = Ret (Some (Wrap m e0), w')
          \<longrightarrow> nodes w (home @ azgitFolderName @ azgitConfigFileName) = None
              \<and> nodes w' (home @ azgitFolderName @ azgitConfigFileName) = None)"
proof -
  have "initializeAzGitConfig parse render w =
          Ret (Some (Wrap ''failed to read ~/.gitconfig: '' e), w1)
        \<and> nodes w1 (home @ azgitFolderName @ azgitConfigFileName) = None"
    if absent: "os_Stat w (home @ azgitFolderName @ azgitConfigFileName) = Some ENOENT"
      and ens: "ensureAzGitFolderExists w = Ret (None, w1)"
      and bad: "ini_Load parse w (home @ [''.gitconfig'']) = Inl e"
  proof -
    note fr = ensure_frame [OF home ens]
    from fr bad have "ini_Load parse w1 (home @ [''.gitconfig'']) = Inl e"
      using ini_Load_cong [of w1 w "home @ [''.gitconfig'']" parse] by simp
    with init_run [OF home absent ens fr(1), of parse render]
    have "initializeAzGitConfig parse render w =
            Ret (Some (Wrap ''failed to read ~/.gitconfig: '' e), w1)" by simp
    moreover from stat_absent [OF absent] fr(3)
    have "nodes w1 (home @ azgitFolderName @ azgitConfigFileName) = None" by simp
    ultimately show ?thesis by blast
  qed
  moreover have "nodes w (home @ azgitFolderName @ azgitConfigFileName) = None
              \<and> nodes w' (home @ azgitFolderName @ azgitConfigFileName) = None"
    if "initializeAzGitConfig parse render w = Ret (Some (Wrap m e0), w')"
    using init_failure_leaves_no_store [OF home that] .
  ultimately show ?thesis by blast
qed

theorem bootstrap_fails_without_gitconfig_witness:
  "(\<exists>w1. initializeAzGitConfig example_parse example_render bare_world =
            Ret (Some (Wrap ''failed to read ~/.gitconfig: ''
                         (PathError ENOENT [''home'', ''alice'', ''.gitconfig''])), w1)
        \<and> nodes w1 [''home'', ''alice'', ''.config'', ''azgit'', ''config.ini''] = None)
   \<and> (\<exists>w1. initializeAzGitConfig example_parse example_render garbled_world =
            Ret (Some (Wrap ''failed to read ~/.gitconfig: '' (ParseError ''unexpected input'')), w1)
        \<and> nodes w1 [''home'', ''alice'', ''.config'', ''azgit'', ''config.ini''] = None)"
proof -
  from ensure_free [OF bare_facts(1) bare_facts(4)] obtain w1 where
    "ensureAzGitFolderExists bare_world = Ret (None, w1)" by blast
  with bootstrap_fails_without_gitconfig [OF bare_facts(1), of w1 example_parse
      "PathError ENOENT [''home'', ''alice'', ''.gitconfig'']" example_render]
    bare_facts(2,3)
  have "\<exists>w1. initializeAzGitConfig example_parse example_render bare_world =
            Ret (Some (Wrap ''failed to read ~/.gitconfig: ''
                         (PathError ENOENT [''home'', ''alice'', ''.gitconfig''])), w1)
        \<and> nodes w1 (example_home @ azgitFolderName @ azgitConfigFileName) = None"
    by blast
  moreover
  from ensure_free [OF garbled_facts(1) garbled_facts(4)] obtain w2 where
    "ensureAzGitFolderExists garbled_world = Ret (None, w2)" by blast
  with bootstrap_fails_without_gitconfig [OF garbled_facts(1), of w2 example_parse
      "ParseError ''unexpected input''" example_render]
    garbled_facts(2,3)
  have "\<exists>w1. initializeAzGitConfig example_parse example_render garbled_world =
            Ret (Some (Wrap ''failed to read ~/.gitconfig: '' (ParseError ''unexpected input'')), w1)
        \<and> nodes w1 (example_home @ azgitFolderName @ azgitConfigFileName) = None"
    by blast
  ultimately show ?thesis by (simp only: example_paths)
qed

text \<open>
  Claim C5 as stated, for every missing or malformed Git configuration, fails without
  the added conditions. In \<open>stored_world\<close> the Git configuration is missing, yet the
  bootstrap succeeds, because the store exists and the Git configuration is never read.
  In \<open>readonly_bare_world\<close> the Git configuration is missing too, and the bootstrap
  fails, but with the error of the directory step, not with the read failure.
\<close>

theorem bootstrap_may_skip_gitconfig_counterexample:
  "ini_Load example_parse stored_world [''home'', ''alice'', ''.gitconfig''] =
     Inl (PathError ENOENT [''home'', ''alice'', ''.gitconfig''])
   \<and> initializeAzGitConfig example_parse example_render stored_world = Ret (None, stored_world)
   \<and> ini_Load example_parse readonly_bare_world [''home'', ''alice'', ''.gitconfig''] =
       Inl (PathError ENOENT [''home'', ''alice'', ''.gitconfig''])
   \<and> initializeAzGitConfig example_parse example_render readonly_bare_world =
       Ret (Some (Wrap ''failed to ensure azgit config directory exists: ''
                    (PathError EACCES [''home'', ''alice'', ''.config'', ''azgit''])),
            readonly_bare_world)"
proof -
  have "os_Stat stored_world (example_home @ azgitFolderName @ azgitConfigFileName) \<noteq> Some ENOENT"
    by (simp add: stored_facts)
  from init_gate [OF stored_facts(1) this, of example_parse example_render]
  have "initializeAzGitConfig example_parse example_render stored_world = Ret (None, stored_world)" .
  moreover have "ini_Load example_parse stored_world [''home'', ''alice'', ''.gitconfig''] =
     Inl (PathError ENOENT [''home'', ''alice'', ''.gitconfig''])"
    by (simp add: ini_Load_def os_ReadFile_def stored_world_def no_path_def)
  moreover have "ini_Load example_parse readonly_bare_world [''home'', ''alice'', ''.gitconfig''] =
       Inl (PathError ENOENT [''home'', ''alice'', ''.gitconfig''])"
    by (simp add: ini_Load_def os_ReadFile_def readonly_bare_world_def readonly_path_def)
  moreover have "initializeAzGitConfig example_parse example_render readonly_bare_world =
       Ret (Some (Wrap ''failed to ensure azgit config directory exists: ''
                    (PathError EACCES [''home'', ''alice'', ''.config'', ''azgit''])),
            readonly_bare_world)"
    by (rule readonly_init) (simp_all add: readonly_bare_world_def)
  ultimately show ?thesis by blast
qed

text \<open>
  Claim C9. If the existence check of the store file fails with an error other than
  not-exist, \<open>initializeAzGitConfig\<close> returns success and the unchanged world: no
  directory is created and no file is written, whatever the parser and the Git
  configuration are. In the same way \<open>ensureAzGitFolderExists\<close> returns success and the
  unchanged world when the check of the directory fails with such an error.
\<close>

theorem stat_failure_counts_as_existing:
  assumes home: "os_home w = Inr home"
  shows "(os_Stat w (home @ azgitFolderName @ azgitConfigFileName) = Some e \<and> e \<noteq> ENOENT \<longrightarrow>
            initializeAzGitConfig parse render w = Ret (None, w))
         \<and> (os_Stat w (home @ azgitFolderName) = Some e \<and> e \<noteq> ENOENT \<longrightarrow>
            ensureAzGitFolderExists w = Ret (None, w))"
proof -
  have "initializeAzGitConfig parse render w = Ret (None, w)"
    if "os_Stat w (home @ azgitFolderName @ azgitConfigFileName) = Some e" "e \<noteq> ENOENT"
  proof -
    from that have "os_Stat w (home @ azgitFolderName @ azgitConfigFileName) \<noteq> Some ENOENT" by simp
    from init_gate [OF home this] show ?thesis .
  qed
  moreover have "ensureAzGitFolderExists w = Ret (None, w)"
    if "os_Stat w (home @ azgitFolderName) = Some e" "e \<noteq> ENOENT"
    using that home
    by (simp add: ensureAzGitFolderExists_def userHomeDir_def os_IsNotExist_def)
  ultimately show ?thesis by blast
qed

theorem stat_failure_counts_as_existing_witness:
  "initializeAzGitConfig example_parse example_render locked_world = Ret (None, locked_world)
   \<and> ensureAzGitFolderExists locked_world = Ret (None, locked_world)
   \<and> nodes locked_world [''home'', ''alice'', ''.config'', ''azgit'', ''config.ini''] = None
   \<and> nodes locked_world [''home'', ''alice'', ''.config'', ''azgit''] = None"
  using stat_failure_counts_as_existing [OF locked_facts(1), of EACCES example_parse example_render]
    locked_facts(2-5)
  by simp

section \<open>The listing command\<close>

text \<open>
  Claim C2. Once the store is loaded, the listing returns no error and prints the title
  line followed by one block per section of the store, in order. The block of a section
  is empty (the listing prints nothing for it) exactly when both its \<open>name\<close> and its
  \<open>email\<close> key are absent or hold the empty string; a key that is absent reads as the
  empty string.
\<close>

theorem listing_skips_exactly_empty_sections:
  assumes "loadAzGitConfig parse w = Ret (Inr cfg)"
  shows "\<exists>blocks.
           listIdentities parse w = Ret (None, ''List of Identities:'' @ LF @ concat blocks)
           \<and> blocks = map (listSection []) (ini_Sections cfg)
           \<and> length blocks = length cfg
           \<and> (\<forall>i<length cfg.
                 (blocks ! i = []) =
                   ((map_of (sec_keys (cfg ! i)) ''name'' = None \<or>
                     map_of (sec_keys (cfg ! i)) ''name'' = Some []) \<and>
                    (map_of (sec_keys (cfg ! i)) ''email'' = None \<or>
                     map_of (sec_keys (cfg ! i)) ''email'' = Some []))
                 \<and> (\<forall>k. map_of (sec_keys (cfg ! i)) k = None \<longrightarrow> Key_String (cfg ! i) k = []))"
proof -
  have skip: "(listSection [] s = []) =
          ((map_of (sec_keys s) ''name'' = None \<or> map_of (sec_keys s) ''name'' = Some [])
           \<and> (map_of (sec_keys s) ''email'' = None \<or> map_of (sec_keys s) ''email'' = Some []))" for s
    using listSection_skip_iff [of "[]" s] by (simp only: Key_String_empty_iff)
  have absent: "map_of (sec_keys s) k = None \<longrightarrow> Key_String s k = []" for s k
    by (simp add: Key_String_def)
  have "listIdentities parse w =
          Ret (None, ''List of Identities:'' @ LF @ concat (map (listSection []) (ini_Sections cfg)))"
    using listIdentities_output [OF assms] by (simp only: ini_Sections_def)
  moreover have "length (map (listSection []) (ini_Sections cfg)) = length cfg"
    by (simp add: ini_Sections_def)
  moreover have "\<forall>i<length cfg.
                 (map (listSection []) (ini_Sections cfg) ! i = []) =
                   ((map_of (sec_keys (cfg ! i)) ''name'' = None \<or>
                     map_of (sec_keys (cfg ! i)) ''name'' = Some []) \<and>
                    (map_of (sec_keys (cfg ! i)) ''email'' = None \<or>
                     map_of (sec_keys (cfg ! i)) ''email'' = Some []))
                 \<and> (\<forall>k. map_of (sec_keys (cfg ! i)) k = None \<longrightarrow> Key_String (cfg ! i) k = [])"
    using skip absent by (simp add: ini_Sections_def)
  ultimately show ?thesis by blast
qed

theorem listing_skips_exactly_empty_sections_witness:
  "listIdentities example_parse global_world =
     Ret (None, ''List of Identities:'' @ LF
       @ concat [LF @ ''Identity [DEFAULT]:'' @ LF @ TAB @ ''Name: Root'' @ LF @ TAB @ ''Email: '' @ LF @ LF,
                 [],
                 LF @ ''Identity [default]:'' @ LF @ TAB @ ''Name: Bob'' @ LF @ TAB @ ''Email: bob@x.com'' @ LF
                   @ TAB @ ''Signing Key: ABCD1234'' @ LF @ TAB @ ''GPG Sign: true'' @ LF @ LF])"
proof -
  from listing_skips_exactly_empty_sections [OF load_global]
  obtain blocks where
    "listIdentities example_parse global_world = Ret (None, ''List of Identities:'' @ LF @ concat blocks)"
    "blocks = map (listSection []) (ini_Sections global_store)"
    by blast
  then show ?thesis by (simp only: ini_Sections_def global_blocks)
qed

text \<open>
  Claim C6. Once the store is loaded, the listing prints, after its title line, one block
  for every section that has a name or an email, and nothing for the others. A block is
  an empty line, the header \<^verbatim>\<open>Identity [section]:\<close>, the lines \<^verbatim>\<open>Name:\<close> and
  \<^verbatim>\<open>Email:\<close>, then \<^verbatim>\<open>Signing Key:\<close> if the signing key is not empty, then
  \<^verbatim>\<open>GPG Sign:\<close> if that value is not empty, and the line feed that
  \<^verbatim>\<open>fmt.Println\<close> adds. For the store that holds only section \<open>default\<close> of Alice, the
  output is the title line and that one block of three lines.
\<close>

theorem listing_block_format:
  assumes "loadAzGitConfig parse w = Ret (Inr cfg)"
  shows "listIdentities parse w =
           Ret (None, ''List of Identities:'' @ LF @
             concat (map (\<lambda>s.
                 LF @ ''Identity ['' @ sec_name s @ '']:'' @ LF
                 @ TAB @ ''Name: '' @ Key_String s ''name'' @ LF
                 @ TAB @ ''Email: '' @ Key_String s ''email'' @ LF
                 @ (if Key_String s ''signingkey'' = [] then []
                    else TAB @ ''Signing Key: '' @ Key_String s ''signingkey'' @ LF)
                 @ (if Key_String s ''gpgsign'' = [] then []
                    else TAB @ ''GPG Sign: '' @ Key_String s ''gpgsign'' @ LF)
                 @ LF)
               (filter (\<lambda>s. \<not> (Key_String s ''name'' = [] \<and> Key_String s ''email'' = [])) cfg)))
         \<and> listIdentities example_parse stored_world =
             Ret (None, ''List of Identities:'' @ LF
                        @ LF @ ''Identity [default]:'' @ LF
                        @ TAB @ ''Name: Alice'' @ LF
                        @ TAB @ ''Email: alice@example.com'' @ LF
                        @ LF)"
proof -
  have "listSection [] =
     (\<lambda>s. if Key_String s ''name'' = [] \<and> Key_String s ''email'' = [] then []
      else LF @ ''Identity ['' @ sec_name s @ '']:'' @ LF
           @ TAB @ ''Name: '' @ Key_String s ''name'' @ LF
           @ TAB @ ''Email: '' @ Key_String s ''email'' @ LF
           @ (if Key_String s ''signingkey'' = [] then []
              else TAB @ ''Signing Key: '' @ Key_String s ''signingkey'' @ LF)
           @ (if Key_String s ''gpgsign'' = [] then []
              else TAB @ ''GPG Sign: '' @ Key_String s ''gpgsign'' @ LF)
           @ LF)"
    by (rule ext) (rule listSection_block)
  with listIdentities_output [OF assms] have general: "listIdentities parse w =
           Ret (None, ''List of Identities:'' @ LF @
             concat (map (\<lambda>s.
                 LF @ ''Identity ['' @ sec_name s @ '']:'' @ LF
                 @ TAB @ ''Name: '' @ Key_String s ''name'' @ LF
                 @ TAB @ ''Email: '' @ Key_String s ''email'' @ LF
                 @ (if Key_String s ''signingkey'' = [] then []
                    else TAB @ ''Signing Key: '' @ Key_String s ''signingkey'' @ LF)
                 @ (if Key_String s ''gpgsign'' = [] then []
                    else TAB @ ''GPG Sign: '' @ Key_String s ''gpgsign'' @ LF)
                 @ LF)
               (filter (\<lambda>s. \<not> (Key_String s ''name'' = [] \<and> Key_String s ''email'' = [])) cfg)))"
    by (simp only: concat_map_filter_if)
  have "map (listSection []) example_store =
      [LF @ ''Identity [default]:'' @ LF @ TAB @ ''Name: Alice'' @ LF
       @ TAB @ ''Email: alice@example.com'' @ LF @ LF]"
    by (simp add: example_store_def listSection_block Key_String_def DefaultSection_def)
  with listIdentities_output [OF load_stored]
  have "listIdentities example_parse stored_world =
             Ret (None, ''List of Identities:'' @ LF
                        @ LF @ ''Identity [default]:'' @ LF
                        @ TAB @ ''Name: Alice'' @ LF
                        @ TAB @ ''Email: alice@example.com'' @ LF
                        @ LF)"
    by simp
  with general show ?thesis by (rule conjI)
qed

theorem listing_block_format_witness:
  "listIdentities example_parse global_world =
     Ret (None, ''List of Identities:'' @ LF
                @ LF @ ''Identity [DEFAULT]:'' @ LF
                @ TAB @ ''Name: Root'' @ LF
                @ TAB @ ''Email: '' @ LF
                @ LF
                @ LF @ ''Identity [default]:'' @ LF
                @ TAB @ ''Name: Bob'' @ LF
                @ TAB @ ''Email: bob@x.com'' @ LF
                @ TAB @ ''Signing Key: ABCD1234'' @ LF
                @ TAB @ ''GPG Sign: true'' @ LF
                @ LF)"
  using listing_block_format [OF load_global]
  by (simp add: global_store_def Key_String_def DefaultSection_def)

text \<open>
  Claim C7. The listing walks all sections of the loaded file, which the package hands
  over in their order of declaration with its unnamed section \<^verbatim>\<open>DEFAULT\<close> among them,
  and prints the blocks of the sections that pass the emptiness test in that same order.
  The test reads the keys only: the name of a section plays no part in it.
\<close>

theorem listing_keeps_declaration_order:
  assumes "loadAzGitConfig parse w = Ret (Inr cfg)"
  shows "ini_Sections cfg = cfg
         \<and> listIdentities parse w =
             Ret (None, ''List of Identities:'' @ LF @
               concat (map (\<lambda>s. identityInfo s @ LF)
                 (filter (\<lambda>s. \<not> (Key_String s ''name'' = [] \<and> Key_String s ''email'' = []))
                         (ini_Sections cfg))))"
proof -
  have "listSection [] =
          (\<lambda>s. if Key_String s ''name'' = [] \<and> Key_String s ''email'' = [] then []
                else identityInfo s @ LF)"
    by (rule ext) (simp add: listSection_def Println_def Let_def)
  with listIdentities_output [OF assms]
  have "listIdentities parse w =
             Ret (None, ''List of Identities:'' @ LF @
               concat (map (\<lambda>s. identityInfo s @ LF)
                 (filter (\<lambda>s. \<not> (Key_String s ''name'' = [] \<and> Key_String s ''email'' = []))
                         cfg)))"
    by (simp only: concat_map_filter_if)
  then show ?thesis by (simp only: ini_Sections_def simp_thms)
qed

theorem listing_keeps_declaration_order_witness:
  "listIdentities example_parse global_world =
     Ret (None, ''List of Identities:'' @ LF
        @ identityInfo \<lparr>sec_name = DefaultSection, sec_keys = [(''name'', ''Root'')]\<rparr> @ LF
        @ identityInfo \<lparr>sec_name = ''default'',
                        sec_keys = [(''name'', ''Bob''), (''email'', ''bob@x.com''),
                                    (''signingkey'', ''ABCD1234''), (''gpgsign'', ''true'')]\<rparr> @ LF)"
  using listing_keeps_declaration_order [OF load_global]
  by (simp add: ini_Sections_def global_store_def Key_String_def)

text \<open>
  Claim C10. Whenever loading the store succeeds, the output of the listing starts with
  the line \<^verbatim>\<open>List of Identities:\<close>, and nothing follows that line exactly when no
  section of the store has a name or an email.
\<close>

theorem listing_prints_title_first:
  assumes "loadAzGitConfig parse w = Ret (Inr cfg)"
  shows "\<exists>blocks.
           listIdentities parse w = Ret (None, ''List of Identities:'' @ LF @ blocks)
           \<and> (blocks = []) =
               list_all (\<lambda>s. Key_String s ''name'' = [] \<and> Key_String s ''email'' = []) cfg"
proof -
  have "(concat (map (listSection []) cfg) = []) =
          list_all (\<lambda>s. Key_String s ''name'' = [] \<and> Key_String s ''email'' = []) cfg"
    using listSection_skip_iff [of "[]"] by (induction cfg) simp_all
  with listIdentities_output [OF assms] show ?thesis by blast
qed

theorem listing_prints_title_first_witness:
  "listIdentities example_parse blank_world = Ret (None, ''List of Identities:'' @ LF)"
proof -
  from listing_prints_title_first [OF load_blank]
  obtain blocks where
    b: "listIdentities example_parse blank_world = Ret (None, ''List of Identities:'' @ LF @ blocks)"
      "(blocks = []) =
         list_all (\<lambda>s. Key_String s ''name'' = [] \<and> Key_String s ''email'' = []) blank_store"
    by blast
  have "list_all (\<lambda>s. Key_String s ''name'' = [] \<and> Key_String s ''email'' = []) blank_store"
    by (simp add: blank_store_def Key_String_def)
  with b show ?thesis by simp
qed

text \<open>
  Claim C8, as amended. The \<^verbatim>\<open>list\<close> command runs \<open>listIdentities\<close> only: it loads the
  store from \<^verbatim>\<open><home>/.config/azgit/config.ini\<close> and returns the world it was given,
  also where the store is missing and the root command would have created it. When the
  store cannot be read or parsed it prints nothing and fails with the read or parse
  failure wrapped under \<^verbatim>\<open>failed to read azgit config\<close>.
\<close>

theorem list_wraps_load_error_and_never_bootstraps:
  assumes home: "os_home w = Inr home"
  shows "(ini_Load parse w (home @ azgitFolderName @ azgitConfigFileName) = Inl err \<longrightarrow>
            listIdentities parse w = Ret (Some (Wrap ''failed to read azgit config: '' err), [])
            \<and> RunE parse render help ListCmd w =
                Ret (Some (Wrap ''failed to read azgit config: '' err), [], w))
         \<and> (ini_Load parse w (home @ azgitFolderName @ azgitConfigFileName) = Inr cfg \<longrightarrow>
            (\<exists>out. listIdentities parse w = Ret (None, out)
                 \<and> RunE parse render help ListCmd w = Ret (None, out, w)))"
proof -
  note at = load_at_home [OF home, of parse]
  have "listIdentities parse w = Ret (Some (Wrap ''failed to read azgit config: '' err), [])
        \<and> RunE parse render help ListCmd w =
            Ret (Some (Wrap ''failed to read azgit config: '' err), [], w)"
    if "ini_Load parse w (home @ azgitFolderName @ azgitConfigFileName) = Inl err"
    using that at by (simp add: listIdentities_def RunE_def)
  moreover have "\<exists>out. listIdentities parse w = Ret (None, out)
                 \<and> RunE parse render help ListCmd w = Ret (None, out, w)"
    if "ini_Load parse w (home @ azgitFolderName @ azgitConfigFileName) = Inr cfg"
  proof -
    from that at have "loadAzGitConfig parse w = Ret (Inr cfg)" by simp
    from listIdentities_output [OF this] show ?thesis by (simp add: RunE_def)
  qed
  ultimately show ?thesis by blast
qed

theorem list_wraps_load_error_and_never_bootstraps_witness:
  "RunE example_parse example_render ''usage'' ListCmd fresh_world =
     Ret (Some (Wrap ''failed to read azgit config: ''
            (PathError ENOENT [''home'', ''alice'', ''.config'', ''azgit'', ''config.ini''])),
          [], fresh_world)
   \<and> nodes fresh_world [''home'', ''alice'', ''.config'', ''azgit'', ''config.ini''] = None
   \<and> (\<exists>w1. RunE example_parse example_render ''usage'' RootCmd fresh_world =
              Ret (None, ''usage'', w1)
          \<and> nodes w1 [''home'', ''alice'', ''.config'', ''azgit'', ''config.ini''] \<noteq> None)"
proof -
  have "ini_Load example_parse fresh_world (example_home @ azgitFolderName @ azgitConfigFileName) =
          Inl (PathError ENOENT [''home'', ''alice'', ''.config'', ''azgit'', ''config.ini''])"
    by (simp add: ini_Load_def os_ReadFile_def fresh_world_def no_path_def example_paths)
  with list_wraps_load_error_and_never_bootstraps [OF fresh_facts(1), of example_parse
      "PathError ENOENT [''home'', ''alice'', ''.config'', ''azgit'', ''config.ini'']"
      example_render "''usage''"]
  have "RunE example_parse example_render ''usage'' ListCmd fresh_world =
     Ret (Some (Wrap ''failed to read azgit config: ''
            (PathError ENOENT [''home'', ''alice'', ''.config'', ''azgit'', ''config.ini''])),
          [], fresh_world)"
    by blast
  moreover have "nodes fresh_world [''home'', ''alice'', ''.config'', ''azgit'', ''config.ini''] = None"
    by (simp add: fresh_world_def)
  moreover from init_fresh [OF fresh_facts, of example_render] obtain w1 where
    "initializeAzGitConfig example_parse example_render fresh_world = Ret (None, w1)"
    "nodes w1 (example_home @ azgitFolderName @ azgitConfigFileName) \<noteq> None"
    by auto
  then have "\<exists>w1. RunE example_parse example_render ''usage'' RootCmd fresh_world =
              Ret (None, ''usage'', w1)
          \<and> nodes w1 [''home'', ''alice'', ''.config'', ''azgit'', ''config.ini''] \<noteq> None"
    by (auto simp add: RunE_def example_paths)
  ultimately show ?thesis by blast
qed

text \<open>
  Claim C8 as stated fails in its last part: the failure does not reach the caller as it
  is. In \<open>fresh_world\<close> loading the store fails with a not-exist error for the store
  path, and the error \<open>listIdentities\<close> returns is a different value, that error
  wrapped.
\<close>

theorem list_error_is_wrapped_counterexample:
  "loadAzGitConfig example_parse fresh_world =
     Ret (Inl (PathError ENOENT [''home'', ''alice'', ''.config'', ''azgit'', ''config.ini'']))
   \<and> listIdentities example_parse fresh_world \<noteq>
       Ret (Some (PathError ENOENT [''home'', ''alice'', ''.config'', ''azgit'', ''config.ini'']), [])
   \<and> listIdentities example_parse fresh_world =
       Ret (Some (Wrap ''failed to read azgit config: ''
              (PathError ENOENT [''home'', ''alice'', ''.config'', ''azgit'', ''config.ini''])), [])"
  using load_fresh by (simp add: listIdentities_def)

end
